theory Spec2Isabelle
  imports Complex_Main "HOL-Library.AList"
begin

section \<open>Strings\<close>

text \<open>
  A Python string is the list of its code points. A literal of the source is written
  with \<open>ascii\<close>, which reads the characters of an ASCII text as their codes.
\<close>

type_synonym str = "nat list"

definition ascii :: "string \<Rightarrow> str" where
  "ascii s = map of_char s"

text \<open>
  The two tables of the Python runtime that the code reads through \<open>str.upper\<close> and
  \<open>str.split\<close>: the upper case of one character, which can be more than one
  character, and the characters that are whitespace. They are parameters of the model.
\<close>

record unicode =
  toupper :: "nat \<Rightarrow> str"
  isspace :: "nat \<Rightarrow> bool"

text \<open>
  What the proofs use of the two tables, where they use anything. Each character of
  an upper case is its own upper case; on ASCII the upper case is the one of the letters
  \<open>a\<close> to \<open>z\<close>, and whitespace is the tab, the line feed, the vertical tab, the form
  feed, the carriage return, the four separators \<open>0x1c..0x1f\<close> and the blank. The
  tables of CPython 3.11 are of this kind.
\<close>

definition python_tables :: "unicode \<Rightarrow> bool" where
  "python_tables U \<longleftrightarrow>
     (\<forall>c x. x \<in> set (toupper U c) \<longrightarrow> toupper U x = [x])
     \<and> (\<forall>c<128. toupper U c = [if 97 \<le> c \<and> c \<le> 122 then c - 32 else c])
     \<and> (\<forall>c<128. isspace U c = (c \<in> {9, 10, 11, 12, 13, 28, 29, 30, 31, 32}))"

text \<open>
  The two tables cut down to ASCII, every other character left as it is and no
  whitespace: the tables the examples on ASCII text are computed with.
\<close>

definition ascii_tables :: unicode where
  "ascii_tables =
     \<lparr>toupper = (\<lambda>c. [if 97 \<le> c \<and> c \<le> 122 then c - 32 else c]),
      isspace = (\<lambda>c. c \<in> {9, 10, 11, 12, 13, 28, 29, 30, 31, 32})\<rparr>"

text \<open>\<open>str.upper()\<close>: the upper cases of the characters, one after the other.\<close>

definition str_upper :: "unicode \<Rightarrow> str \<Rightarrow> str" where
  "str_upper U s = concat (map (toupper U) s)"

text \<open>
  \<open>str.split()\<close> without arguments: skip whitespace, cut the next maximal run of
  characters that are not whitespace, and go on behind it.
\<close>

function str_split :: "unicode \<Rightarrow> str \<Rightarrow> str list" where
  "str_split U s =
     (case dropWhile (isspace U) s of
        [] \<Rightarrow> []
      | c # r \<Rightarrow>
          (c # takeWhile (\<lambda>x. \<not> isspace U x) r)
            # str_split U (dropWhile (\<lambda>x. \<not> isspace U x) r))"
  by pat_completeness auto
termination
proof (relation "measure (\<lambda>(U, s). length s)", goal_cases)
  case 1
  show ?case by simp
next
  case (2 U s c r)
  have "length (dropWhile (\<lambda>x. \<not> isspace U x) r) \<le> length r"
    by (rule length_dropWhile_le)
  moreover have "length (c # r) \<le> length s"
    using 2 length_dropWhile_le [of "isspace U" s] by simp
  ultimately show ?case by simp
qed

text \<open>\<open>sep.join(parts)\<close>\<close>

fun str_join :: "str \<Rightarrow> str list \<Rightarrow> str" where
  "str_join sep [] = []"
| "str_join sep [x] = x"
| "str_join sep (x # y # ys) = x @ sep @ str_join sep (y # ys)"

section \<open>Errors\<close>

text \<open>
  The exceptions. \<open>ValueError\<close> is the one the constructor of a registry raises, with
  its message, and \<open>KeyError\<close> the one of a dictionary, with the missing key. An
  exception raised inside the interpreter or a library is modelled by its class alone:
  \<open>TypeError_raised\<close>, \<open>ValueError_raised\<close> and \<open>UnicodeEncodeError_raised\<close> by the
  interpreter and the \<open>enum\<close> module, \<open>SchemaError\<close> by pandera.
\<close>

datatype py_error =
    ValueError str
  | KeyError str
  | ValueError_raised
  | TypeError_raised
  | UnicodeEncodeError_raised
  | SchemaError

definition and_then :: "'e + 'a \<Rightarrow> ('a \<Rightarrow> 'e + 'b) \<Rightarrow> 'e + 'b" where
  "and_then x f = (case x of Inl e \<Rightarrow> Inl e | Inr a \<Rightarrow> f a)"

section \<open>Metrics\<close>

datatype Aggregation =
    Aggregation_LAST
  | Aggregation_MAX
  | Aggregation_MEAN
  | Aggregation_MIN
  | Aggregation_SUM

text \<open>\<open>Aggregation\<close> is a \<open>str\<close> enumeration: each member is the string of its value.\<close>

fun Aggregation_value :: "Aggregation \<Rightarrow> str" where
  "Aggregation_value Aggregation_LAST = ascii ''LAST''"
| "Aggregation_value Aggregation_MAX = ascii ''MAX''"
| "Aggregation_value Aggregation_MEAN = ascii ''MEAN''"
| "Aggregation_value Aggregation_MIN = ascii ''MIN''"
| "Aggregation_value Aggregation_SUM = ascii ''SUM''"

text \<open>
  The fields of a \<open>Metrics\<close> object. The class does not protect them: an assignment
  to a field of an object is not validated, so an object can hold any name.
\<close>

record Metrics =
  name :: str
  unit :: str
  is_cumulative :: bool
  aggregation :: "Aggregation option"

text \<open>The validator of the field \<open>name\<close>: \<open>"_".join(value.upper().split())\<close>.\<close>

definition upper :: "unicode \<Rightarrow> str \<Rightarrow> str" where
  "upper U v = str_join (ascii ''_'') (str_split U (str_upper U v))"

text \<open>
  \<open>Metrics(name=..., unit=..., is_cumulative=..., aggregation=...)\<close> on arguments of
  the declared types: the validator rewrites the name, the other fields are stored as
  they come.
\<close>

definition Metrics_init ::
  "unicode \<Rightarrow> str \<Rightarrow> str \<Rightarrow> bool \<Rightarrow> Aggregation option \<Rightarrow> Metrics" where
  "Metrics_init U n u c a =
     \<lparr>name = upper U n, unit = u, is_cumulative = c, aggregation = a\<rparr>"

definition full_name :: "Metrics \<Rightarrow> str" where
  "full_name m =
     (case aggregation m of
        Some a \<Rightarrow> name m @ ascii ''_'' @ Aggregation_value a
      | None \<Rightarrow> name m)"

definition table_column :: "Metrics \<Rightarrow> str" where
  "table_column m = (if is_cumulative m then ascii ''SUM'' else ascii ''VALUE'')"

text \<open>
  The plain representation of a \<open>Metrics\<close> object: a dictionary with the keys
  \<open>name\<close>, \<open>unit\<close> and \<open>is_cumulative\<close> and, when \<open>rep_aggregation\<close> is not \<open>None\<close>,
  the key \<open>aggregation\<close>, whose value is an aggregation or Python's \<open>None\<close>.
\<close>

record representation =
  rep_name :: str
  rep_unit :: str
  rep_is_cumulative :: bool
  rep_aggregation :: "Aggregation option option"

text \<open>\<open>super().dict()\<close>: pydantic's representation, with a value for each field.\<close>

definition BaseModel_dict :: "Metrics \<Rightarrow> representation" where
  "BaseModel_dict m =
     \<lparr>rep_name = name m, rep_unit = unit m, rep_is_cumulative = is_cumulative m,
      rep_aggregation = Some (aggregation m)\<rparr>"

text \<open>\<open>Metrics.dict()\<close>, called without arguments.\<close>

definition Metrics_dict :: "Metrics \<Rightarrow> representation" where
  "Metrics_dict m =
     (let d = BaseModel_dict m
      in if rep_aggregation d = Some None then d\<lparr>rep_aggregation := None\<rparr> else d)"

text \<open>
  \<open>Metrics(**d, aggregation=a)\<close>, the way the module derives \<open>TEMPERATURE_MIN\<close> from
  \<open>TEMPERATURE.dict()\<close>. Python refuses with a \<open>TypeError\<close> a call in which the
  unpacked dictionary and the explicit keyword name the same argument; otherwise the
  constructor runs on the values of the dictionary and the aggregation given.
\<close>

definition Metrics_with_aggregation ::
  "unicode \<Rightarrow> representation \<Rightarrow> Aggregation \<Rightarrow> py_error + Metrics" where
  "Metrics_with_aggregation U d a =
     (if rep_aggregation d \<noteq> None then Inl TypeError_raised
      else Inr (Metrics_init U (rep_name d) (rep_unit d) (rep_is_cumulative d) (Some a)))"

section \<open>The registry\<close>

text \<open>
  The class attribute \<open>_registries_prefixes\<close>, a dictionary from each prefix in use to
  itself, shared by all registries of the process. Dictionaries keep the order of
  insertion, so they are association lists with distinct keys: a store to a new key
  appends, a store to a key that is there replaces its value in place
  (\<^const>\<open>AList.update\<close>).
\<close>

type_synonym registries_prefixes = "(str \<times> str) list"

definition get_prefixes :: "registries_prefixes \<Rightarrow> str set" where
  "get_prefixes g = set (map fst g)"

definition add_prefix :: "str \<Rightarrow> registries_prefixes \<Rightarrow> registries_prefixes" where
  "add_prefix p g = AList.update p p g"

record MetricsRegistry =
  reg_metrics :: "(str \<times> Metrics) list"
  reg_prefix :: str

text \<open>The comprehension \<open>{metrics.full_name: metrics for metrics in metrics}\<close>.\<close>

definition metrics_by_full_name :: "Metrics list \<Rightarrow> (str \<times> Metrics) list" where
  "metrics_by_full_name ms = foldl (\<lambda>d m. AList.update (full_name m) m d) [] ms"

text \<open>\<open>f"{prefix}"\<close> for an optional string.\<close>

definition format_prefix :: "str option \<Rightarrow> str" where
  "format_prefix prefix = (case prefix of None \<Rightarrow> ascii ''None'' | Some p \<Rightarrow> p)"

text \<open>
  \<open>MetricsRegistry.__init__\<close>. The call takes the prefixes in use and returns them
  with its result: the error it raises, or the registry it has built.
\<close>

definition MetricsRegistry_init ::
  "registries_prefixes \<Rightarrow> Metrics list \<Rightarrow> str option
     \<Rightarrow> (py_error + MetricsRegistry) \<times> registries_prefixes" where
  "MetricsRegistry_init g ms prefix =
     (let d = metrics_by_full_name ms;
          p = (case prefix of Some x \<Rightarrow> format_prefix prefix | None \<Rightarrow> [])
      in if p \<in> get_prefixes g
         then (Inl (ValueError
                 (ascii ''Prefix '' @ format_prefix prefix
                    @ ascii '' is already used. Please use a prefix different from ''
                    @ str_join (ascii '', '') (map fst g))), g)
         else (Inr \<lparr>reg_metrics = d, reg_prefix = p\<rparr>, add_prefix p g))"

definition generate_registry_by_filtering ::
  "unicode \<Rightarrow> registries_prefixes \<Rightarrow> MetricsRegistry \<Rightarrow> str list \<Rightarrow> str
     \<Rightarrow> (py_error + MetricsRegistry) \<times> registries_prefixes" where
  "generate_registry_by_filtering U g self metrics prefix =
     (let metrics_included = map (str_upper U) metrics;
          filtered_metrics =
            map snd (filter (\<lambda>(n, m). n \<in> set metrics_included) (reg_metrics self))
      in MetricsRegistry_init g filtered_metrics (Some prefix))"

definition list_all_metrics_names :: "MetricsRegistry \<Rightarrow> str list" where
  "list_all_metrics_names self = map fst (reg_metrics self)"

definition get_metrics_by_full_name ::
  "unicode \<Rightarrow> MetricsRegistry \<Rightarrow> str \<Rightarrow> py_error + Metrics" where
  "get_metrics_by_full_name U self fn =
     (case map_of (reg_metrics self) (str_upper U fn) of
        None \<Rightarrow> Inl (KeyError (str_upper U fn))
      | Some m \<Rightarrow> Inr m)"

subsection \<open>The enumeration of a registry\<close>

text \<open>
  What the \<open>enum\<close> module of CPython 3.11 does with the name of an entry of the class
  it is asked to build. The three tests are \<open>_is_dunder\<close>, \<open>_is_sunder\<close> and
  \<open>_is_private\<close> of \<open>enum.py\<close>: a name \<open>__x__\<close>, a name \<open>_x_\<close>, and a name
  \<open>_Class__x\<close> private to the class.
\<close>

definition is_dunder :: "str \<Rightarrow> bool" where
  "is_dunder n \<longleftrightarrow>
     length n > 4 \<and> take 2 n = ascii ''__'' \<and> drop (length n - 2) n = ascii ''__''
     \<and> [n ! 2] \<noteq> ascii ''_'' \<and> [n ! (length n - 3)] \<noteq> ascii ''_''"

definition is_sunder :: "str \<Rightarrow> bool" where
  "is_sunder n \<longleftrightarrow>
     length n > 2 \<and> [n ! 0] = ascii ''_'' \<and> [last n] = ascii ''_''
     \<and> [n ! 1] \<noteq> ascii ''_'' \<and> [n ! (length n - 2)] \<noteq> ascii ''_''"

definition is_private :: "str \<Rightarrow> str \<Rightarrow> bool" where
  "is_private cls_name n \<longleftrightarrow>
     (let pattern = ascii ''_'' @ cls_name @ ascii ''__''
      in length n > length pattern \<and> take (length pattern) n = pattern
         \<and> ([last n] \<noteq> ascii ''_'' \<or> [n ! (length n - 2)] \<noteq> ascii ''_''))"

text \<open>The names \<open>_x_\<close> that the module takes; it refuses every other one.\<close>

definition sunder_names :: "str list" where
  "sunder_names =
     [ascii ''_order_'', ascii ''_generate_next_value_'', ascii ''_numeric_repr_'',
      ascii ''_missing_'', ascii ''_ignore_'', ascii ''_iter_member_'',
      ascii ''_iter_member_by_value_'', ascii ''_iter_member_by_def_'']"

text \<open>
  The members: the entries are stored one after the other. A private name or a name
  \<open>__x__\<close> is stored as an attribute of the class and makes no member, a name \<open>_x_\<close>
  is refused with a \<open>ValueError\<close> unless it is one the module knows, and a name that
  is a member already is refused with a \<open>TypeError\<close>.
\<close>

fun member_names :: "str \<Rightarrow> str list \<Rightarrow> str list \<Rightarrow> py_error + str list" where
  "member_names cls_name members [] = Inr members"
| "member_names cls_name members (n # ns) =
     (if is_private cls_name n then member_names cls_name members ns
      else if is_sunder n then
        (if n \<in> set sunder_names then member_names cls_name members ns
         else Inl ValueError_raised)
      else if is_dunder n then member_names cls_name members ns
      else if n \<in> set members then Inl TypeError_raised
      else member_names cls_name (members @ [n]) ns)"

text \<open>
  The attributes that break the construction of the class when they are bound to a
  string: with at least one member, the methods the module looks up on the new class.
\<close>

definition method_names :: "str list" where
  "method_names =
     [ascii ''__new__'', ascii ''__init__'', ascii ''__getattr__'',
      ascii ''__getattribute__'', ascii ''__setattr__'']"

text \<open>An enumeration: its own name and its members, name and value, in their order.\<close>

record py_enum =
  enum_name :: str
  enum_members :: "(str \<times> str) list"

text \<open>
  \<open>Enum(value=cls_name, names=[(n, n) for n in names], type=str)\<close> in CPython 3.11.
  After the entries are stored, the module refuses the member names \<open>mro\<close> and the
  empty one; then the class is built, which fails on an attribute \<open>__slots__\<close> that
  is a string, on a class name with a surrogate or a null character, and on the
  attributes that cannot be strings. Otherwise each member has its name for value.
\<close>

definition Enum_of_names :: "str \<Rightarrow> str list \<Rightarrow> py_error + py_enum" where
  "Enum_of_names cls_name names =
     (case member_names cls_name [] names of
        Inl e \<Rightarrow> Inl e
      | Inr members \<Rightarrow>
          if [] \<in> set members \<or> ascii ''mro'' \<in> set members then Inl ValueError_raised
          else if ascii ''__slots__'' \<in> set names then Inl ValueError_raised
          else if \<exists>c\<in>set cls_name. 55296 \<le> c \<and> c \<le> 57343 then Inl UnicodeEncodeError_raised
          else if 0 \<in> set cls_name then Inl ValueError_raised
          else if ascii ''__classcell__'' \<in> set names
                  \<or> (members \<noteq> [] \<and> (\<exists>k\<in>set method_names. k \<in> set names))
                  \<or> ascii ''_order_'' \<in> set names \<or> ascii ''__order__'' \<in> set names
          then Inl TypeError_raised
          else Inr \<lparr>enum_name = cls_name, enum_members = map (\<lambda>n. (n, n)) members\<rparr>)"

definition get_enum_from_metrics :: "MetricsRegistry \<Rightarrow> py_error + py_enum" where
  "get_enum_from_metrics self =
     Enum_of_names (reg_prefix self @ ascii ''Metrics'') (map fst (reg_metrics self))"

subsection \<open>Sequences of constructions\<close>

text \<open>
  A construction is asked for directly or through the filter of a registry that
  exists; a process is a sequence of such calls on the shared prefixes.
\<close>

datatype construction =
    Direct "Metrics list" "str option"
  | ByFiltering MetricsRegistry "str list" str

fun perform ::
  "unicode \<Rightarrow> registries_prefixes \<Rightarrow> construction
     \<Rightarrow> (py_error + MetricsRegistry) \<times> registries_prefixes" where
  "perform U g (Direct ms prefix) = MetricsRegistry_init g ms prefix"
| "perform U g (ByFiltering self metrics prefix) =
     generate_registry_by_filtering U g self metrics prefix"

text \<open>The prefix a construction asks for, as the constructor stores it.\<close>

fun requested_prefix :: "construction \<Rightarrow> str" where
  "requested_prefix (Direct ms prefix) = (case prefix of Some p \<Rightarrow> p | None \<Rightarrow> [])"
| "requested_prefix (ByFiltering self metrics prefix) = prefix"

text \<open>The prefixes in use after a sequence of constructions, failed ones included.\<close>

fun run_constructions ::
  "unicode \<Rightarrow> registries_prefixes \<Rightarrow> construction list \<Rightarrow> registries_prefixes" where
  "run_constructions U g [] = g"
| "run_constructions U g (c # cs) = run_constructions U (snd (perform U g c)) cs"

section \<open>The module's own metrics and registries\<close>

definition TEMPERATURE :: "unicode \<Rightarrow> Metrics" where
  "TEMPERATURE U = Metrics_init U (ascii ''temperature'') (ascii ''C'') False None"

definition TEMPERATURE_MIN :: "unicode \<Rightarrow> py_error + Metrics" where
  "TEMPERATURE_MIN U =
     Metrics_with_aggregation U (Metrics_dict (TEMPERATURE U)) Aggregation_MIN"

definition TEMPERATURE_MAX :: "unicode \<Rightarrow> py_error + Metrics" where
  "TEMPERATURE_MAX U =
     Metrics_with_aggregation U (Metrics_dict (TEMPERATURE U)) Aggregation_MAX"

definition TEMPERATURE_MEAN :: "unicode \<Rightarrow> py_error + Metrics" where
  "TEMPERATURE_MEAN U =
     Metrics_with_aggregation U (Metrics_dict (TEMPERATURE U)) Aggregation_MEAN"

definition TEMPERATURE_LAST :: "unicode \<Rightarrow> py_error + Metrics" where
  "TEMPERATURE_LAST U =
     Metrics_with_aggregation U (Metrics_dict (TEMPERATURE U)) Aggregation_LAST"

definition RAIN_FALL :: "unicode \<Rightarrow> Metrics" where
  "RAIN_FALL U = Metrics_init U (ascii ''rain fall'') (ascii ''C'') True None"

definition WIND_SPEED_2M :: "unicode \<Rightarrow> Metrics" where
  "WIND_SPEED_2M U = Metrics_init U (ascii ''wind speed at 2m'') (ascii ''km/h'') False None"

record metrics_module =
  MAIN_METRICS_REGISTRY :: MetricsRegistry
  METRICS_AND_AGGREGATION_REGISTRY :: MetricsRegistry
  module_prefixes :: registries_prefixes

text \<open>
  The import of the module, from no prefix in use: the derived metrics, then the two
  registries. An exception on the way ends the import.
\<close>

definition import_metrics :: "unicode \<Rightarrow> py_error + metrics_module" where
  "import_metrics U =
     and_then (TEMPERATURE_MIN U) (\<lambda>tmin.
     and_then (TEMPERATURE_MAX U) (\<lambda>tmax.
     and_then (TEMPERATURE_MEAN U) (\<lambda>tmean.
     and_then (TEMPERATURE_LAST U) (\<lambda>tlast.
       (case MetricsRegistry_init [] [TEMPERATURE U, RAIN_FALL U, WIND_SPEED_2M U] None of
          (Inl e, g) \<Rightarrow> Inl e
        | (Inr main, g) \<Rightarrow>
            (case MetricsRegistry_init g [tmin, tmax, tmean, tlast]
                    (Some (ascii ''Aggregated'')) of
               (Inl e, g') \<Rightarrow> Inl e
             | (Inr agg, g') \<Rightarrow>
                 Inr \<lparr>MAIN_METRICS_REGISTRY = main,
                      METRICS_AND_AGGREGATION_REGISTRY = agg,
                      module_prefixes = g'\<rparr>))))))"

section \<open>The normal form of a name, in the words of the specification\<close>

text \<open>
  The specification describes the stored name as the upper case of the name given, with
  each internal run of whitespace replaced by one underscore. \<open>replace_runs\<close> replaces
  each maximal run of whitespace by one underscore; \<open>replace_internal_runs\<close> does so
  between the first and the last character that is not whitespace and keeps the
  whitespace around them, \<open>str_strip\<close> removes it.
\<close>

definition str_lstrip :: "unicode \<Rightarrow> str \<Rightarrow> str" where
  "str_lstrip U s = dropWhile (isspace U) s"

definition str_rstrip :: "unicode \<Rightarrow> str \<Rightarrow> str" where
  "str_rstrip U s = rev (dropWhile (isspace U) (rev s))"

definition str_strip :: "unicode \<Rightarrow> str \<Rightarrow> str" where
  "str_strip U s = str_rstrip U (str_lstrip U s)"

function replace_runs :: "unicode \<Rightarrow> str \<Rightarrow> str" where
  "replace_runs U [] = []"
| "replace_runs U (c # s) =
     (if isspace U c then ascii ''_'' @ replace_runs U (dropWhile (isspace U) s)
      else c # replace_runs U s)"
  by pat_completeness auto
termination
proof (relation "measure (\<lambda>(U, s). length s)", goal_cases)
  case 1
  show ?case by simp
next
  case (2 U c s)
  have "length (dropWhile (isspace U) s) \<le> length s"
    by (rule length_dropWhile_le)
  then show ?case by simp
next
  case (3 U c s)
  show ?case by simp
qed

definition replace_internal_runs :: "unicode \<Rightarrow> str \<Rightarrow> str" where
  "replace_internal_runs U s =
     takeWhile (isspace U) s @ replace_runs U (str_strip U s)
       @ rev (takeWhile (isspace U) (rev (str_lstrip U s)))"

section \<open>Upper case and words\<close>

lemma ascii_simps [simp]:
  "ascii [] = []" "ascii (c # s) = of_char c # ascii s" "ascii (a @ b) = ascii a @ ascii b"
  by (simp_all add: ascii_def)

lemma str_upper_simps [simp]:
  "str_upper U [] = []"
  "str_upper U (c # s) = toupper U c @ str_upper U s"
  "str_upper U (a @ b) = str_upper U a @ str_upper U b"
  by (simp_all add: str_upper_def)

lemma str_upper_stable: "\<forall>x\<in>set t. toupper U x = [x] \<Longrightarrow> str_upper U t = t"
  by (induction t) simp_all

lemma str_upper_chars:
  assumes "python_tables U" and "x \<in> set (str_upper U s)"
  shows "toupper U x = [x]"
proof -
  from assms(2) obtain c where "x \<in> set (toupper U c)"
    by (auto simp: str_upper_def)
  with assms(1) show ?thesis unfolding python_tables_def by blast
qed

lemma str_upper_idem: "python_tables U \<Longrightarrow> str_upper U (str_upper U s) = str_upper U s"
  by (rule str_upper_stable) (blast intro: str_upper_chars)

lemma tables_underscore:
  assumes "python_tables U"
  shows "toupper U 95 = [95]" and "\<not> isspace U 95"
proof -
  have "(95::nat) < 128" by simp
  with assms have "toupper U 95 = [if 97 \<le> (95::nat) \<and> (95::nat) \<le> 122 then 95 - 32 else 95]"
    and "isspace U 95 = ((95::nat) \<in> {9, 10, 11, 12, 13, 28, 29, 30, 31, 32})"
    unfolding python_tables_def by blast+
  then show "toupper U 95 = [95]" and "\<not> isspace U 95" by simp_all
qed

lemma ascii_underscore: "ascii ''_'' = [95]"
  by (simp add: ascii_def)

declare str_split.simps [simp del]

lemma str_split_Nil: "dropWhile (isspace U) s = [] \<Longrightarrow> str_split U s = []"
  by (subst str_split.simps) (simp only: list.case)

lemma str_split_Cons:
  "dropWhile (isspace U) s = c # r \<Longrightarrow>
     str_split U s =
       (c # takeWhile (\<lambda>x. \<not> isspace U x) r) # str_split U (dropWhile (\<lambda>x. \<not> isspace U x) r)"
  by (subst str_split.simps) (simp only: list.case)

lemma dropWhile_isspace_hd: "dropWhile (isspace U) s = c # r \<Longrightarrow> \<not> isspace U c"
  using hd_dropWhile [of "isspace U" s] by auto

lemma takeWhile_not_space:
  "x \<in> set (takeWhile (\<lambda>x. \<not> isspace U x) r) \<Longrightarrow> \<not> isspace U x"
  by (rule set_takeWhileD [THEN conjunct2])

lemma str_split_parts:
  "p \<in> set (str_split U s) \<Longrightarrow> p \<noteq> [] \<and> (\<forall>c\<in>set p. \<not> isspace U c \<and> c \<in> set s)"
proof (induction U s rule: str_split.induct)
  case (1 U s)
  show ?case
  proof (cases "dropWhile (isspace U) s")
    case Nil
    from 1(2) show ?thesis by (simp add: str_split_Nil [OF Nil])
  next
    case (Cons c r)
    have c: "\<not> isspace U c" using Cons by (rule dropWhile_isspace_hd)
    have sub: "set (c # r) \<subseteq> set s"
      using set_dropWhileD [of _ "isspace U" s] unfolding Cons by blast
    from 1(2) have "p = c # takeWhile (\<lambda>x. \<not> isspace U x) r
        \<or> p \<in> set (str_split U (dropWhile (\<lambda>x. \<not> isspace U x) r))"
      by (simp add: str_split_Cons [OF Cons])
    then show ?thesis
    proof
      assume p: "p = c # takeWhile (\<lambda>x. \<not> isspace U x) r"
      have "\<not> isspace U x" if "x \<in> set p" for x
        using that c unfolding p by (metis set_ConsD takeWhile_not_space)
      moreover have "x \<in> set s" if "x \<in> set p" for x
        using that sub unfolding p by (metis set_ConsD set_takeWhileD list.set_intros subsetD)
      moreover have "p \<noteq> []" unfolding p by (rule list.distinct)
      ultimately show ?thesis by blast
    next
      assume "p \<in> set (str_split U (dropWhile (\<lambda>x. \<not> isspace U x) r))"
      then have ih: "p \<noteq> [] \<and> (\<forall>c\<in>set p. \<not> isspace U c \<and> c \<in> set (dropWhile (\<lambda>x. \<not> isspace U x) r))"
        by (rule 1(1) [OF Cons])
      have "x \<in> set s" if "x \<in> set (dropWhile (\<lambda>x. \<not> isspace U x) r)" for x
        using that sub by (metis set_dropWhileD list.set_intros(2) subsetD)
      with ih show ?thesis by blast
    qed
  qed
qed

lemma str_split_no_space:
  assumes "\<forall>c\<in>set t. \<not> isspace U c"
  shows "str_split U t = (if t = [] then [] else [t])"
proof (cases t)
  case Nil
  then show ?thesis by (simp add: str_split_Nil)
next
  case (Cons c r)
  with assms have d: "dropWhile (isspace U) t = c # r" by simp
  from Cons assms have r: "takeWhile (\<lambda>x. \<not> isspace U x) r = r"
      "dropWhile (\<lambda>x. \<not> isspace U x) r = []"
    by auto
  have "str_split U t =
      (c # takeWhile (\<lambda>x. \<not> isspace U x) r) # str_split U (dropWhile (\<lambda>x. \<not> isspace U x) r)"
    by (rule str_split_Cons [OF d])
  then show ?thesis using Cons r by (simp add: str_split_Nil)
qed

lemma str_join_chars:
  "x \<in> set (str_join sep ps) \<Longrightarrow> x \<in> set sep \<or> (\<exists>p\<in>set ps. x \<in> set p)"
  by (induction sep ps rule: str_join.induct) auto

lemma upper_chars:
  assumes "python_tables U" and "x \<in> set (upper U s)"
  shows "toupper U x = [x]" and "\<not> isspace U x"
proof -
  from assms(2) have "x \<in> set (ascii ''_'') \<or> (\<exists>p\<in>set (str_split U (str_upper U s)). x \<in> set p)"
    unfolding upper_def by (rule str_join_chars)
  then have "x = 95 \<or> (x \<in> set (str_upper U s) \<and> \<not> isspace U x)"
    using str_split_parts [of _ U "str_upper U s"] by (auto simp: ascii_underscore)
  then show "toupper U x = [x]" and "\<not> isspace U x"
    using tables_underscore [OF assms(1)] str_upper_chars [OF assms(1)] by blast+
qed

lemma str_upper_upper: "python_tables U \<Longrightarrow> str_upper U (upper U s) = upper U s"
  by (rule str_upper_stable) (blast intro: upper_chars)

lemma str_join_single_or_empty: "str_join sep (if t = [] then [] else [t]) = t"
  by simp

lemma upper_idem:
  assumes "python_tables U"
  shows "upper U (upper U s) = upper U s"
proof -
  have "upper U (upper U s) = str_join (ascii ''_'') (str_split U (upper U s))"
    by (simp add: upper_def [of U "upper U s"] str_upper_upper [OF assms])
  also have "str_split U (upper U s) = (if upper U s = [] then [] else [upper U s])"
    by (rule str_split_no_space) (rule ballI, rule upper_chars(2) [OF assms])
  also have "str_join (ascii ''_'') (if upper U s = [] then [] else [upper U s]) = upper U s"
    by (rule str_join_single_or_empty)
  finally show ?thesis .
qed

section \<open>The prefixes in use\<close>

lemma get_prefixes_add_prefix: "get_prefixes (add_prefix p g) = insert p (get_prefixes g)"
  unfolding get_prefixes_def add_prefix_def
  using AList.dom_update [of p p g] by simp

lemma MetricsRegistry_init_fails:
  assumes "(case prefix of Some x \<Rightarrow> x | None \<Rightarrow> []) \<in> get_prefixes g"
  shows "MetricsRegistry_init g ms prefix =
           (Inl (ValueError (ascii ''Prefix '' @ format_prefix prefix
              @ ascii '' is already used. Please use a prefix different from ''
              @ str_join (ascii '', '') (map fst g))), g)"
  using assms by (cases prefix) (simp_all add: MetricsRegistry_init_def format_prefix_def Let_def)

lemma MetricsRegistry_init_succeeds:
  assumes "(case prefix of Some x \<Rightarrow> x | None \<Rightarrow> []) \<notin> get_prefixes g"
  shows "MetricsRegistry_init g ms prefix =
           (Inr \<lparr>reg_metrics = metrics_by_full_name ms,
                 reg_prefix = (case prefix of Some x \<Rightarrow> x | None \<Rightarrow> [])\<rparr>,
            add_prefix (case prefix of Some x \<Rightarrow> x | None \<Rightarrow> []) g)"
  using assms by (cases prefix) (simp_all add: MetricsRegistry_init_def format_prefix_def Let_def)

text \<open>Every construction ends in a call of the constructor.\<close>

lemma construct_as_init:
  "\<exists>ms. perform U g c = MetricsRegistry_init g ms (case c of Direct ms' p \<Rightarrow> p | ByFiltering s n p \<Rightarrow> Some p)"
  by (cases c) (auto simp: generate_registry_by_filtering_def Let_def)

lemma requested_prefix_conv:
  "requested_prefix c = (case (case c of Direct ms' p \<Rightarrow> p | ByFiltering s n p \<Rightarrow> Some p) of Some x \<Rightarrow> x | None \<Rightarrow> [])"
  by (cases c) simp_all

lemma construct_fails:
  assumes "requested_prefix c \<in> get_prefixes g"
  shows "\<exists>shown. perform U g c =
           (Inl (ValueError (ascii ''Prefix '' @ shown
              @ ascii '' is already used. Please use a prefix different from ''
              @ str_join (ascii '', '') (map fst g))), g)"
proof -
  obtain ms where "perform U g c = MetricsRegistry_init g ms (case c of Direct ms' p \<Rightarrow> p | ByFiltering s n p \<Rightarrow> Some p)"
    using construct_as_init by blast
  then show ?thesis
    using MetricsRegistry_init_fails [of "case c of Direct ms' p \<Rightarrow> p | ByFiltering s n p \<Rightarrow> Some p" g ms] assms
    by (simp add: requested_prefix_conv)
qed

lemma construct_succeeds:
  assumes "requested_prefix c \<notin> get_prefixes g"
  shows "\<exists>r. perform U g c = (Inr r, add_prefix (requested_prefix c) g) \<and> reg_prefix r = requested_prefix c"
proof -
  obtain ms where "perform U g c = MetricsRegistry_init g ms (case c of Direct ms' p \<Rightarrow> p | ByFiltering s n p \<Rightarrow> Some p)"
    using construct_as_init by blast
  then show ?thesis
    using MetricsRegistry_init_succeeds [of "case c of Direct ms' p \<Rightarrow> p | ByFiltering s n p \<Rightarrow> Some p" g ms] assms
    by (simp add: requested_prefix_conv)
qed

lemma construct_prefixes:
  "get_prefixes (snd (perform U g c)) = insert (requested_prefix c) (get_prefixes g)"
proof (cases "requested_prefix c \<in> get_prefixes g")
  case True
  then show ?thesis using construct_fails [OF True, of U] by auto
next
  case False
  then show ?thesis using construct_succeeds [OF False, of U] by (auto simp: get_prefixes_add_prefix)
qed

lemma run_constructions_prefixes:
  "get_prefixes (run_constructions U g cs) = get_prefixes g \<union> requested_prefix ` set cs"
  by (induction cs arbitrary: g) (auto simp: construct_prefixes)

lemma str_join_names:
  "p \<in> set ps \<Longrightarrow> \<exists>a b. str_join sep ps = a @ p @ b"
proof (induction sep ps rule: str_join.induct)
  case (1 sep)
  then show ?case by simp
next
  case (2 sep x)
  then have "str_join sep [x] = [] @ p @ []" by simp
  then show ?case by blast
next
  case (3 sep x y ys)
  show ?case
  proof (cases "p = x")
    case True
    then have "str_join sep (x # y # ys) = [] @ p @ (sep @ str_join sep (y # ys))" by simp
    then show ?thesis by blast
  next
    case False
    with 3 obtain a b where "str_join sep (y # ys) = a @ p @ b" by auto
    then have "str_join sep (x # y # ys) = (x @ sep @ a) @ p @ b" by simp
    then show ?thesis by blast
  qed
qed

text \<open>
  Claim C1. In every sequence of constructions, direct or through
  \<open>generate_registry_by_filtering\<close>, from any prefixes in use: a construction that asks
  for the prefix of an earlier one (no prefix at all counts as the empty prefix) raises
  \<open>ValueError\<close>, the error of a prefix in use, and leaves the prefixes as they are; its
  message ends with the list of the prefixes in use, so each of them is named in it.
\<close>

theorem prefix_collision:
  assumes "c' \<in> set cs" and "requested_prefix c = requested_prefix c'"
  shows "\<exists>shown.
           perform U (run_constructions U g cs) c =
             (Inl (ValueError (ascii ''Prefix '' @ shown
                @ ascii '' is already used. Please use a prefix different from ''
                @ str_join (ascii '', '') (map fst (run_constructions U g cs)))),
              run_constructions U g cs)
           \<and> (\<forall>p\<in>get_prefixes (run_constructions U g cs).
                 \<exists>a b. str_join (ascii '', '') (map fst (run_constructions U g cs)) = a @ p @ b)"
proof -
  have "requested_prefix c \<in> get_prefixes (run_constructions U g cs)"
    using assms by (auto simp: run_constructions_prefixes)
  from construct_fails [OF this, of U] obtain shown where
    "perform U (run_constructions U g cs) c =
       (Inl (ValueError (ascii ''Prefix '' @ shown
          @ ascii '' is already used. Please use a prefix different from ''
          @ str_join (ascii '', '') (map fst (run_constructions U g cs)))),
        run_constructions U g cs)" by blast
  moreover have "\<forall>p\<in>get_prefixes (run_constructions U g cs).
                 \<exists>a b. str_join (ascii '', '') (map fst (run_constructions U g cs)) = a @ p @ b"
    using str_join_names [of _ "map fst (run_constructions U g cs)" "ascii '', ''"]
    by (simp add: get_prefixes_def)
  ultimately show ?thesis by blast
qed

text \<open>
  Claim C10. A construction that fails leaves the prefixes in use exactly as they were,
  and the same construction asked again with a prefix that is not in use succeeds,
  with the registry and the prefixes it would have given without the failed attempt.
\<close>

theorem failed_construction_registers_nothing:
  assumes "perform U g c = (Inl e, g')" and "p \<notin> get_prefixes g"
  shows "g' = g
         \<and> perform U g' (Direct ms (Some p)) =
             (Inr \<lparr>reg_metrics = metrics_by_full_name ms, reg_prefix = p\<rparr>, add_prefix p g)
         \<and> (\<exists>r. perform U g' (ByFiltering self names p) = (Inr r, add_prefix p g))"
proof -
  have "requested_prefix c \<in> get_prefixes g"
  proof (rule ccontr)
    assume "requested_prefix c \<notin> get_prefixes g"
    from construct_succeeds [OF this, of U] assms(1) show False by auto
  qed
  from construct_fails [OF this, of U] assms(1) have g': "g' = g" by auto
  have "perform U g (Direct ms (Some p)) =
     (Inr \<lparr>reg_metrics = metrics_by_full_name ms, reg_prefix = p\<rparr>, add_prefix p g)"
    using MetricsRegistry_init_succeeds [of "Some p" g ms] assms(2) by simp
  moreover have "\<exists>r. perform U g (ByFiltering self names p) = (Inr r, add_prefix p g)"
    using construct_succeeds [of "ByFiltering self names p" g U] assms(2) by auto
  ultimately show ?thesis using g' by simp
qed


theorem prefix_collision_witness:
  "perform ascii_tables
     (run_constructions ascii_tables []
        [Direct [] None, Direct [] (Some (ascii ''Aggregated''))])
     (ByFiltering \<lparr>reg_metrics = [], reg_prefix = []\<rparr> [] (ascii ''Aggregated''))
   = (Inl (ValueError
        (ascii ''Prefix Aggregated is already used. Please use a prefix different from , Aggregated'')),
      [([], []), (ascii ''Aggregated'', ascii ''Aggregated'')])"
  using prefix_collision [of "Direct [] (Some (ascii ''Aggregated''))"
      "[Direct [] None, Direct [] (Some (ascii ''Aggregated''))]"
      "ByFiltering \<lparr>reg_metrics = [], reg_prefix = []\<rparr> [] (ascii ''Aggregated'')"
      ascii_tables "[]"]
  by (simp add: MetricsRegistry_init_def generate_registry_by_filtering_def get_prefixes_def
      add_prefix_def format_prefix_def metrics_by_full_name_def Let_def)

theorem failed_construction_registers_nothing_witness:
  "perform ascii_tables [([], [])] (Direct [] None) =
     (Inl (ValueError
        (ascii ''Prefix None is already used. Please use a prefix different from '')),
      [([], [])])
   \<and> ascii ''Partial'' \<notin> get_prefixes [([], [])]
   \<and> perform ascii_tables [([], [])] (Direct [] (Some (ascii ''Partial''))) =
       (Inr \<lparr>reg_metrics = [], reg_prefix = ascii ''Partial''\<rparr>,
        [([], []), (ascii ''Partial'', ascii ''Partial'')])"
proof -
  have f: "perform ascii_tables [([], [])] (Direct [] None) =
     (Inl (ValueError
        (ascii ''Prefix None is already used. Please use a prefix different from '')),
      [([], [])])"
    by (simp add: MetricsRegistry_init_def get_prefixes_def format_prefix_def Let_def)
  have p: "ascii ''Partial'' \<notin> get_prefixes [([], [])]"
    by (simp add: get_prefixes_def)
  from failed_construction_registers_nothing [OF f p, of "[]"] f p show ?thesis
    by (simp add: add_prefix_def metrics_by_full_name_def)
qed

section \<open>The metrics of a registry\<close>

lemma update_new_key: "k \<notin> fst ` set al \<Longrightarrow> AList.update k v al = al @ [(k, v)]"
  by (induction al) auto

lemma fold_update_keys:
  "fst ` set (foldl (\<lambda>d m. AList.update (full_name m) m d) d ms) = fst ` set d \<union> full_name ` set ms"
  by (induction ms arbitrary: d) (auto simp: AList.dom_update)

lemma fold_update_distinct:
  "distinct (map fst d) \<Longrightarrow> distinct (map fst (foldl (\<lambda>d m. AList.update (full_name m) m d) d ms))"
  by (induction ms arbitrary: d) (auto simp: AList.distinct_update)

lemma fold_update_lookup:
  "map_of (foldl (\<lambda>d m. AList.update (full_name m) m d) d ms) k = Some m
     \<Longrightarrow> map_of d k = Some m \<or> (m \<in> set ms \<and> full_name m = k)"
proof (induction ms arbitrary: d)
  case Nil
  then show ?case by simp
next
  case (Cons x xs)
  from Cons.IH [of "AList.update (full_name x) x d"] Cons.prems
  have "map_of (AList.update (full_name x) x d) k = Some m \<or> (m \<in> set xs \<and> full_name m = k)"
    by simp
  then show ?case by (auto simp: AList.update_conv' split: if_splits)
qed

lemma metrics_by_full_name_names:
  "set (map fst (metrics_by_full_name ms)) = full_name ` set ms"
  using fold_update_keys [of "[]" ms] by (simp add: metrics_by_full_name_def)

lemma metrics_by_full_name_distinct: "distinct (map fst (metrics_by_full_name ms))"
  using fold_update_distinct [of "[]" ms] by (simp add: metrics_by_full_name_def)

lemma metrics_by_full_name_lookup:
  "map_of (metrics_by_full_name ms) k = Some m \<Longrightarrow> m \<in> set ms \<and> full_name m = k"
  using fold_update_lookup [of "[]" ms k m] by (simp add: metrics_by_full_name_def)

lemma metrics_by_full_name_entries:
  "(k, m) \<in> set (metrics_by_full_name ms) \<Longrightarrow> m \<in> set ms \<and> full_name m = k"
  using metrics_by_full_name_lookup [of ms k m] metrics_by_full_name_distinct [of ms]
  by simp

lemma metrics_by_full_name_None:
  "map_of (metrics_by_full_name ms) k = None \<longleftrightarrow> k \<notin> full_name ` set ms"
  using metrics_by_full_name_names [of ms] by (simp add: map_of_eq_None_iff)

lemma fold_update_rebuild:
  "distinct (map fst (d0 @ d)) \<Longrightarrow> (\<And>k m. (k, m) \<in> set d \<Longrightarrow> full_name m = k)
     \<Longrightarrow> foldl (\<lambda>d m. AList.update (full_name m) m d) d0 (map snd d) = d0 @ d"
proof (induction d arbitrary: d0)
  case Nil
  then show ?case by simp
next
  case (Cons e d)
  obtain k m where e: "e = (k, m)" by (cases e)
  have k: "full_name m = k" using Cons.prems(2) [of k m] e by simp
  have "k \<notin> fst ` set d0" using Cons.prems(1) e by auto
  then have u: "AList.update (full_name m) m d0 = d0 @ [(k, m)]"
    using k by (simp add: update_new_key)
  have "foldl (\<lambda>d m. AList.update (full_name m) m d) (d0 @ [(k, m)]) (map snd d) = (d0 @ [(k, m)]) @ d"
  proof (rule Cons.IH)
    show "distinct (map fst ((d0 @ [(k, m)]) @ d))" using Cons.prems(1) e by simp
    show "\<And>k' m'. (k', m') \<in> set d \<Longrightarrow> full_name m' = k'" using Cons.prems(2) by simp
  qed
  then show ?case using u e by simp
qed

lemma metrics_by_full_name_rebuild:
  "distinct (map fst d) \<Longrightarrow> (\<And>k m. (k, m) \<in> set d \<Longrightarrow> full_name m = k)
     \<Longrightarrow> metrics_by_full_name (map snd d) = d"
  using fold_update_rebuild [of "[]" d] by (simp add: metrics_by_full_name_def)

lemma MetricsRegistry_init_result:
  assumes "MetricsRegistry_init g ms prefix = (Inr r, g')"
  shows "reg_metrics r = metrics_by_full_name ms"
    and "reg_prefix r = (case prefix of Some x \<Rightarrow> x | None \<Rightarrow> [])"
    and "reg_prefix r \<notin> get_prefixes g"
    and "g' = add_prefix (reg_prefix r) g"
  using assms
  by (auto simp: MetricsRegistry_init_def format_prefix_def Let_def split: if_splits option.splits)

section \<open>Examples on ASCII text\<close>

lemma toupper_ascii:
  "python_tables U \<Longrightarrow> c < 128 \<Longrightarrow> toupper U c = [if 97 \<le> c \<and> c \<le> 122 then c - 32 else c]"
  unfolding python_tables_def by blast

lemma isspace_ascii:
  "python_tables U \<Longrightarrow> c < 128 \<Longrightarrow> isspace U c = (c \<in> {9, 10, 11, 12, 13, 28, 29, 30, 31, 32})"
  unfolding python_tables_def by blast

lemma ascii_tables_ok: "python_tables ascii_tables"
  unfolding python_tables_def ascii_tables_def by auto

lemma upper_temperature_min:
  "python_tables U \<Longrightarrow> str_upper U (ascii ''temperature_min'') = ascii ''TEMPERATURE_MIN''"
  "python_tables U \<Longrightarrow> str_upper U (ascii ''TEMPERATURE_MIN'') = ascii ''TEMPERATURE_MIN''"
  by (simp_all add: toupper_ascii)

section \<open>Lookup\<close>

text \<open>
  Claim C5. For a registry built from the metrics \<open>ms\<close>, the lookup by full name reads
  its argument in upper case, whatever the tables of the upper case are: arguments with
  the same upper case give the same answer; the lookup raises \<open>KeyError\<close> when no metric
  of \<open>ms\<close> has the upper case of the argument as its full name, and returns a metric of
  \<open>ms\<close> with that full name when there is one. With the tables of Python an argument
  and its upper case give the same answer, and so do \<open>"temperature_min"\<close> and
  \<open>"TEMPERATURE_MIN"\<close>.
\<close>

theorem lookup_by_full_name:
  assumes "MetricsRegistry_init g ms prefix = (Inr r, g')"
  shows "(str_upper U a = str_upper U b \<longrightarrow>
            get_metrics_by_full_name U r a = get_metrics_by_full_name U r b)
       \<and> (str_upper U a \<notin> full_name ` set ms \<longrightarrow>
            get_metrics_by_full_name U r a = Inl (KeyError (str_upper U a)))
       \<and> (str_upper U a \<in> full_name ` set ms \<longrightarrow>
            (\<exists>m\<in>set ms. full_name m = str_upper U a
               \<and> get_metrics_by_full_name U r a = Inr m))
       \<and> (python_tables U \<longrightarrow>
            get_metrics_by_full_name U r (str_upper U a) = get_metrics_by_full_name U r a
            \<and> get_metrics_by_full_name U r (ascii ''temperature_min'')
                = get_metrics_by_full_name U r (ascii ''TEMPERATURE_MIN''))"
proof -
  have r: "reg_metrics r = metrics_by_full_name ms"
    using MetricsRegistry_init_result(1) [OF assms] .
  have 1: "str_upper U a = str_upper U b \<longrightarrow>
            get_metrics_by_full_name U r a = get_metrics_by_full_name U r b"
    by (simp add: get_metrics_by_full_name_def split: option.splits)
  have 2: "str_upper U a \<notin> full_name ` set ms \<longrightarrow>
            get_metrics_by_full_name U r a = Inl (KeyError (str_upper U a))"
    using metrics_by_full_name_None [of ms "str_upper U a"]
    by (auto simp: get_metrics_by_full_name_def r split: option.splits)
  have 3: "str_upper U a \<in> full_name ` set ms \<longrightarrow>
            (\<exists>m\<in>set ms. full_name m = str_upper U a
               \<and> get_metrics_by_full_name U r a = Inr m)"
  proof
    assume "str_upper U a \<in> full_name ` set ms"
    then have "map_of (metrics_by_full_name ms) (str_upper U a) \<noteq> None"
      using metrics_by_full_name_None [of ms "str_upper U a"] by simp
    then obtain m where m: "map_of (metrics_by_full_name ms) (str_upper U a) = Some m"
      by auto
    from metrics_by_full_name_lookup [OF m] m
    show "\<exists>m\<in>set ms. full_name m = str_upper U a \<and> get_metrics_by_full_name U r a = Inr m"
      by (auto simp: get_metrics_by_full_name_def r)
  qed
  have 4: "python_tables U \<longrightarrow>
            get_metrics_by_full_name U r (str_upper U a) = get_metrics_by_full_name U r a
            \<and> get_metrics_by_full_name U r (ascii ''temperature_min'')
                = get_metrics_by_full_name U r (ascii ''TEMPERATURE_MIN'')"
  proof
    assume U: "python_tables U"
    have "str_upper U (ascii ''temperature_min'') = str_upper U (ascii ''TEMPERATURE_MIN'')"
      by (simp only: upper_temperature_min [OF U])
    then show "get_metrics_by_full_name U r (str_upper U a) = get_metrics_by_full_name U r a
            \<and> get_metrics_by_full_name U r (ascii ''temperature_min'')
                = get_metrics_by_full_name U r (ascii ''TEMPERATURE_MIN'')"
      unfolding get_metrics_by_full_name_def by (simp only: str_upper_idem [OF U])
  qed
  from 1 2 3 4 show ?thesis by (intro conjI)
qed

theorem lookup_by_full_name_witness:
  "get_metrics_by_full_name ascii_tables
     \<lparr>reg_metrics =
        [(ascii ''TEMPERATURE_MIN'',
          \<lparr>name = ascii ''TEMPERATURE'', unit = ascii ''C'', is_cumulative = False,
           aggregation = Some Aggregation_MIN\<rparr>)],
      reg_prefix = ascii ''Aggregated''\<rparr> (ascii ''temperature_min'')
   = get_metrics_by_full_name ascii_tables
     \<lparr>reg_metrics =
        [(ascii ''TEMPERATURE_MIN'',
          \<lparr>name = ascii ''TEMPERATURE'', unit = ascii ''C'', is_cumulative = False,
           aggregation = Some Aggregation_MIN\<rparr>)],
      reg_prefix = ascii ''Aggregated''\<rparr> (ascii ''TEMPERATURE_MIN'')
   \<and> get_metrics_by_full_name ascii_tables
     \<lparr>reg_metrics =
        [(ascii ''TEMPERATURE_MIN'',
          \<lparr>name = ascii ''TEMPERATURE'', unit = ascii ''C'', is_cumulative = False,
           aggregation = Some Aggregation_MIN\<rparr>)],
      reg_prefix = ascii ''Aggregated''\<rparr> (ascii ''temperature_min'')
   = Inr \<lparr>name = ascii ''TEMPERATURE'', unit = ascii ''C'', is_cumulative = False,
           aggregation = Some Aggregation_MIN\<rparr>
   \<and> get_metrics_by_full_name ascii_tables
     \<lparr>reg_metrics =
        [(ascii ''TEMPERATURE_MIN'',
          \<lparr>name = ascii ''TEMPERATURE'', unit = ascii ''C'', is_cumulative = False,
           aggregation = Some Aggregation_MIN\<rparr>)],
      reg_prefix = ascii ''Aggregated''\<rparr> (ascii ''rainfall'')
   = Inl (KeyError (ascii ''RAINFALL''))"
proof -
  let ?m = "\<lparr>name = ascii ''TEMPERATURE'', unit = ascii ''C'', is_cumulative = False,
           aggregation = Some Aggregation_MIN\<rparr>"
  let ?r = "\<lparr>reg_metrics = [(ascii ''TEMPERATURE_MIN'', ?m)],
             reg_prefix = ascii ''Aggregated''\<rparr>"
  have fn: "full_name ?m = ascii ''TEMPERATURE_MIN''"
    by (simp add: full_name_def)
  have init: "MetricsRegistry_init [([], [])] [?m] (Some (ascii ''Aggregated''))
      = (Inr ?r, [([], []), (ascii ''Aggregated'', ascii ''Aggregated'')])"
    by (simp add: MetricsRegistry_init_def metrics_by_full_name_def full_name_def
        get_prefixes_def add_prefix_def format_prefix_def Let_def)
  have u1: "str_upper ascii_tables (ascii ''temperature_min'') = ascii ''TEMPERATURE_MIN''"
    by (rule upper_temperature_min(1) [OF ascii_tables_ok])
  have u3: "str_upper ascii_tables (ascii ''rainfall'') = ascii ''RAINFALL''"
    by (simp add: toupper_ascii [OF ascii_tables_ok])
  have in1: "str_upper ascii_tables (ascii ''temperature_min'') \<in> full_name ` set [?m]"
    by (simp only: u1 fn list.set image_insert image_empty insertI1)
  have out3: "str_upper ascii_tables (ascii ''rainfall'') \<notin> full_name ` set [?m]"
    unfolding u3 by (simp add: full_name_def)
  note t1 = lookup_by_full_name [OF init, of ascii_tables "ascii ''temperature_min''"
      "ascii ''TEMPERATURE_MIN''"]
  note t3 = lookup_by_full_name [OF init, of ascii_tables "ascii ''rainfall''"
      "ascii ''rainfall''"]
  have a: "get_metrics_by_full_name ascii_tables ?r (ascii ''temperature_min'')
      = get_metrics_by_full_name ascii_tables ?r (ascii ''TEMPERATURE_MIN'')"
    using t1 ascii_tables_ok by blast
  have b: "get_metrics_by_full_name ascii_tables ?r (ascii ''temperature_min'') = Inr ?m"
    using t1 in1 by auto
  have c: "get_metrics_by_full_name ascii_tables ?r (ascii ''rainfall'')
      = Inl (KeyError (ascii ''RAINFALL''))"
    using t3 out3 u3 by metis
  from a b c show ?thesis by (intro conjI)
qed

section \<open>The enumeration\<close>

lemma member_names_plain:
  assumes "\<forall>n\<in>set ns. \<not> is_private cls_name n \<and> \<not> is_sunder n \<and> \<not> is_dunder n"
    and "distinct (members @ ns)"
  shows "member_names cls_name members ns = Inr (members @ ns)"
  using assms
proof (induction ns arbitrary: members)
  case Nil
  then show ?case by simp
next
  case (Cons n ns)
  have "member_names cls_name (members @ [n]) ns = Inr ((members @ [n]) @ ns)"
    by (rule Cons.IH) (use Cons.prems in auto)
  moreover have "n \<notin> set members" using Cons.prems(2) by auto
  ultimately show ?case using Cons.prems(1) by simp
qed

lemma reserved_names:
  "is_dunder (ascii ''__slots__'')" "is_dunder (ascii ''__classcell__'')"
  "is_dunder (ascii ''__order__'')" "is_sunder (ascii ''_order_'')"
  "\<forall>k\<in>set method_names. is_dunder k"
  by (simp_all add: is_dunder_def is_sunder_def method_names_def)

lemma Enum_of_names_plain:
  assumes plain: "\<forall>n\<in>set ns. n \<noteq> [] \<and> n \<noteq> ascii ''mro''
        \<and> \<not> is_private cls_name n \<and> \<not> is_sunder n \<and> \<not> is_dunder n"
    and dist: "distinct ns"
    and cls: "\<forall>c\<in>set cls_name. c \<noteq> 0 \<and> \<not> (55296 \<le> c \<and> c \<le> 57343)"
  shows "Enum_of_names cls_name ns =
           Inr \<lparr>enum_name = cls_name, enum_members = map (\<lambda>n. (n, n)) ns\<rparr>"
proof -
  have m: "member_names cls_name [] ns = Inr ns"
    using member_names_plain [of ns cls_name "[]"] plain dist by simp
  have a: "[] \<notin> set ns" "ascii ''mro'' \<notin> set ns" using plain by blast+
  have b: "ascii ''__slots__'' \<notin> set ns" "ascii ''__classcell__'' \<notin> set ns"
    "ascii ''__order__'' \<notin> set ns" "ascii ''_order_'' \<notin> set ns"
    using plain reserved_names(1-4) by blast+
  have c: "\<not> (\<exists>k\<in>set method_names. k \<in> set ns)"
    using plain reserved_names(5) by blast
  have d: "\<not> (\<exists>c\<in>set cls_name. 55296 \<le> c \<and> c \<le> 57343)" "0 \<notin> set cls_name"
    using cls by blast+
  show ?thesis
    unfolding Enum_of_names_def by (simp only: m sum.case a b c d if_False simp_thms)
qed

lemma Enum_of_names_name: "Enum_of_names cls_name ns = Inr e \<Longrightarrow> enum_name e = cls_name"
  unfolding Enum_of_names_def by (auto split: sum.splits if_splits)

text \<open>
  Claim C9, as the code has it. The \<open>enum\<close> module does not take every string as the
  name of a member: it refuses the empty name, the name \<open>mro\<close> and the names \<open>_x_\<close>,
  and it makes no member of a name \<open>__x__\<close> or of a name private to the class. For a
  registry none of whose full names is of these kinds, and whose prefix holds no null
  character and no surrogate, the enumeration has one member for each full name of the
  registry, in the order of the registry, each with its name for value, and it is named
  by the prefix followed by \<open>Metrics\<close>; two enumerations of registries with different
  prefixes have different names.
\<close>

theorem enum_of_registry:
  assumes "MetricsRegistry_init g ms prefix = (Inr r, g')"
    and "\<forall>n\<in>full_name ` set ms. n \<noteq> [] \<and> n \<noteq> ascii ''mro''
           \<and> \<not> is_private (reg_prefix r @ ascii ''Metrics'') n
           \<and> \<not> is_sunder n \<and> \<not> is_dunder n"
    and "\<forall>c\<in>set (reg_prefix r). c \<noteq> 0 \<and> \<not> (55296 \<le> c \<and> c \<le> 57343)"
  shows "get_enum_from_metrics r =
           Inr \<lparr>enum_name = reg_prefix r @ ascii ''Metrics'',
                enum_members = map (\<lambda>n. (n, n)) (list_all_metrics_names r)\<rparr>
       \<and> set (list_all_metrics_names r) = full_name ` set ms
       \<and> distinct (list_all_metrics_names r)
       \<and> (\<forall>e e'. get_enum_from_metrics r = Inr e \<and> get_enum_from_metrics r' = Inr e'
             \<and> reg_prefix r' \<noteq> reg_prefix r \<longrightarrow> enum_name e' \<noteq> enum_name e)"
proof -
  have r: "reg_metrics r = metrics_by_full_name ms"
    using MetricsRegistry_init_result(1) [OF assms(1)] .
  have s: "set (list_all_metrics_names r) = full_name ` set ms"
    using metrics_by_full_name_names [of ms] by (simp add: list_all_metrics_names_def r)
  have d: "distinct (list_all_metrics_names r)"
    using metrics_by_full_name_distinct [of ms] by (simp add: list_all_metrics_names_def r)
  have cls: "\<forall>c\<in>set (reg_prefix r @ ascii ''Metrics''). c \<noteq> 0 \<and> \<not> (55296 \<le> c \<and> c \<le> 57343)"
    using assms(3) by auto
  have e: "get_enum_from_metrics r =
           Inr \<lparr>enum_name = reg_prefix r @ ascii ''Metrics'',
                enum_members = map (\<lambda>n. (n, n)) (list_all_metrics_names r)\<rparr>"
    unfolding get_enum_from_metrics_def list_all_metrics_names_def [symmetric]
    by (rule Enum_of_names_plain) (use assms(2) s d cls in auto)
  have n: "\<forall>e e'. get_enum_from_metrics r = Inr e \<and> get_enum_from_metrics r' = Inr e'
             \<and> reg_prefix r' \<noteq> reg_prefix r \<longrightarrow> enum_name e' \<noteq> enum_name e"
    unfolding get_enum_from_metrics_def by (auto dest!: Enum_of_names_name)
  from e s d n show ?thesis by (intro conjI)
qed

theorem enum_of_registry_witness:
  "get_enum_from_metrics
     \<lparr>reg_metrics =
        [(ascii ''TEMPERATURE_MIN'',
          \<lparr>name = ascii ''TEMPERATURE'', unit = ascii ''C'', is_cumulative = False,
           aggregation = Some Aggregation_MIN\<rparr>)],
      reg_prefix = ascii ''Aggregated''\<rparr>
   = Inr \<lparr>enum_name = ascii ''AggregatedMetrics'',
          enum_members = [(ascii ''TEMPERATURE_MIN'', ascii ''TEMPERATURE_MIN'')]\<rparr>"
proof -
  let ?m = "\<lparr>name = ascii ''TEMPERATURE'', unit = ascii ''C'', is_cumulative = False,
           aggregation = Some Aggregation_MIN\<rparr>"
  let ?r = "\<lparr>reg_metrics = [(ascii ''TEMPERATURE_MIN'', ?m)],
             reg_prefix = ascii ''Aggregated''\<rparr>"
  have init: "MetricsRegistry_init [([], [])] [?m] (Some (ascii ''Aggregated''))
      = (Inr ?r, [([], []), (ascii ''Aggregated'', ascii ''Aggregated'')])"
    by (simp add: MetricsRegistry_init_def metrics_by_full_name_def full_name_def
        get_prefixes_def add_prefix_def format_prefix_def Let_def)
  have names: "\<forall>n\<in>full_name ` set [?m]. n \<noteq> [] \<and> n \<noteq> ascii ''mro''
           \<and> \<not> is_private (reg_prefix ?r @ ascii ''Metrics'') n
           \<and> \<not> is_sunder n \<and> \<not> is_dunder n"
    by (simp add: full_name_def is_private_def is_sunder_def is_dunder_def)
  have cls: "\<forall>c\<in>set (reg_prefix ?r). c \<noteq> 0 \<and> \<not> (55296 \<le> c \<and> c \<le> 57343)"
    by simp
  from enum_of_registry [OF init names cls, of ?r, THEN conjunct1] show ?thesis
    by (simp add: list_all_metrics_names_def)
qed

text \<open>
  The claim as it is worded fails on the registry of the one metric built by
  \<open>Metrics(name="", unit="mm", is_cumulative=True)\<close>: its full name is the empty string,
  and the \<open>enum\<close> module raises \<open>ValueError\<close> instead of building an enumeration.
\<close>

theorem enum_of_registry_counterexample:
  "fst (MetricsRegistry_init [] [Metrics_init ascii_tables [] (ascii ''mm'') True None] None)
     = Inr \<lparr>reg_metrics =
               [([], \<lparr>name = [], unit = ascii ''mm'', is_cumulative = True,
                       aggregation = None\<rparr>)],
            reg_prefix = []\<rparr>
   \<and> get_enum_from_metrics
       \<lparr>reg_metrics =
          [([], \<lparr>name = [], unit = ascii ''mm'', is_cumulative = True,
                  aggregation = None\<rparr>)],
        reg_prefix = []\<rparr>
     = Inl ValueError_raised"
proof -
  have u: "upper ascii_tables [] = []"
    by (simp add: upper_def str_split_Nil)
  have "fst (MetricsRegistry_init [] [Metrics_init ascii_tables [] (ascii ''mm'') True None] None)
     = Inr \<lparr>reg_metrics =
               [([], \<lparr>name = [], unit = ascii ''mm'', is_cumulative = True,
                       aggregation = None\<rparr>)],
            reg_prefix = []\<rparr>"
    by (simp add: MetricsRegistry_init_def metrics_by_full_name_def full_name_def
        Metrics_init_def u get_prefixes_def Let_def)
  moreover have "get_enum_from_metrics
       \<lparr>reg_metrics =
          [([], \<lparr>name = [], unit = ascii ''mm'', is_cumulative = True,
                  aggregation = None\<rparr>)],
        reg_prefix = []\<rparr>
     = Inl ValueError_raised"
    by (simp add: get_enum_from_metrics_def Enum_of_names_def is_private_def is_sunder_def
        is_dunder_def)
  ultimately show ?thesis by (intro conjI)
qed

section \<open>Full names\<close>

lemma Aggregation_value_inj: "Aggregation_value a = Aggregation_value b \<Longrightarrow> a = b"
  by (cases a; cases b) simp_all

lemma full_name_differs:
  assumes "name m2 = name m1" and "aggregation m2 \<noteq> aggregation m1"
  shows "full_name m1 \<noteq> full_name m2"
proof (cases "aggregation m1")
  case None
  with assms(2) obtain y where "aggregation m2 = Some y" by (cases "aggregation m2") auto
  with None assms(1) show ?thesis by (simp add: full_name_def)
next
  case (Some x)
  show ?thesis
  proof (cases "aggregation m2")
    case None
    with Some assms(1) show ?thesis by (simp add: full_name_def)
  next
    case (Some y)
    with \<open>aggregation m1 = Some x\<close> assms(2) have "x \<noteq> y" by simp
    then have "Aggregation_value x \<noteq> Aggregation_value y"
      using Aggregation_value_inj by blast
    with Some \<open>aggregation m1 = Some x\<close> assms(1) show ?thesis
      by (simp add: full_name_def)
  qed
qed

lemma metrics_by_full_name_found:
  assumes "m \<in> set ms"
  shows "\<exists>x\<in>set ms. map_of (metrics_by_full_name ms) (full_name m) = Some x
           \<and> full_name x = full_name m"
proof -
  from assms have "map_of (metrics_by_full_name ms) (full_name m) \<noteq> None"
    using metrics_by_full_name_None [of ms "full_name m"] by simp
  then obtain x where x: "map_of (metrics_by_full_name ms) (full_name m) = Some x" by auto
  from metrics_by_full_name_lookup [OF x] x show ?thesis by blast
qed

text \<open>
  Claim C6. The full name of a metric is its name when the aggregation is not set, and
  its name, an underscore and the aggregation when it is. Two metrics that differ in
  their aggregation only have different full names, and a registry built from a list
  that holds both keeps an entry under each of the two full names; built from the two of
  them, it holds the one and the other, each under its full name.
\<close>

theorem aggregations_coexist:
  assumes "MetricsRegistry_init g ms prefix = (Inr r, g')"
    and "m1 \<in> set ms" and "m2 \<in> set ms"
    and "name m2 = name m1" and "unit m2 = unit m1" and "is_cumulative m2 = is_cumulative m1"
    and "aggregation m2 \<noteq> aggregation m1"
  shows "(aggregation m = None \<longrightarrow> full_name m = name m)
       \<and> (aggregation m = Some a \<longrightarrow> full_name m = name m @ ascii ''_'' @ Aggregation_value a)
       \<and> full_name m1 \<noteq> full_name m2
       \<and> full_name m1 \<in> set (list_all_metrics_names r)
       \<and> full_name m2 \<in> set (list_all_metrics_names r)
       \<and> (\<exists>x\<in>set ms. map_of (reg_metrics r) (full_name m1) = Some x
             \<and> full_name x = full_name m1)
       \<and> (\<exists>y\<in>set ms. map_of (reg_metrics r) (full_name m2) = Some y
             \<and> full_name y = full_name m2)
       \<and> (ms = [m1, m2] \<longrightarrow> reg_metrics r = [(full_name m1, m1), (full_name m2, m2)])"
proof -
  have r: "reg_metrics r = metrics_by_full_name ms"
    using MetricsRegistry_init_result(1) [OF assms(1)] .
  have n: "aggregation m = None \<longrightarrow> full_name m = name m"
    by (simp add: full_name_def)
  have s: "aggregation m = Some a \<longrightarrow> full_name m = name m @ ascii ''_'' @ Aggregation_value a"
    by (simp add: full_name_def)
  have d: "full_name m1 \<noteq> full_name m2"
    using assms(4,7) by (rule full_name_differs)
  have k: "set (list_all_metrics_names r) = full_name ` set ms"
    using metrics_by_full_name_names [of ms] by (simp add: list_all_metrics_names_def r)
  have k1: "full_name m1 \<in> set (list_all_metrics_names r)"
    unfolding k using assms(2) by (rule imageI)
  have k2: "full_name m2 \<in> set (list_all_metrics_names r)"
    unfolding k using assms(3) by (rule imageI)
  have l1: "\<exists>x\<in>set ms. map_of (reg_metrics r) (full_name m1) = Some x
             \<and> full_name x = full_name m1"
    unfolding r using assms(2) by (rule metrics_by_full_name_found)
  have l2: "\<exists>y\<in>set ms. map_of (reg_metrics r) (full_name m2) = Some y
             \<and> full_name y = full_name m2"
    unfolding r using assms(3) by (rule metrics_by_full_name_found)
  have two: "ms = [m1, m2] \<longrightarrow> reg_metrics r = [(full_name m1, m1), (full_name m2, m2)]"
    using d by (simp add: r metrics_by_full_name_def)
  from n s d k1 k2 l1 l2 two show ?thesis by (intro conjI)
qed

theorem aggregations_coexist_witness:
  "full_name \<lparr>name = ascii ''TEMPERATURE'', unit = ascii ''C'', is_cumulative = False,
              aggregation = None\<rparr> = ascii ''TEMPERATURE''
   \<and> full_name \<lparr>name = ascii ''TEMPERATURE'', unit = ascii ''C'', is_cumulative = False,
              aggregation = Some Aggregation_MIN\<rparr> = ascii ''TEMPERATURE_MIN''
   \<and> MetricsRegistry_init []
        [\<lparr>name = ascii ''TEMPERATURE'', unit = ascii ''C'', is_cumulative = False,
           aggregation = None\<rparr>,
         \<lparr>name = ascii ''TEMPERATURE'', unit = ascii ''C'', is_cumulative = False,
           aggregation = Some Aggregation_MIN\<rparr>] None
     = (Inr \<lparr>reg_metrics =
               [(ascii ''TEMPERATURE'',
                 \<lparr>name = ascii ''TEMPERATURE'', unit = ascii ''C'', is_cumulative = False,
                  aggregation = None\<rparr>),
                (ascii ''TEMPERATURE_MIN'',
                 \<lparr>name = ascii ''TEMPERATURE'', unit = ascii ''C'', is_cumulative = False,
                  aggregation = Some Aggregation_MIN\<rparr>)],
              reg_prefix = []\<rparr>, [([], [])])"
proof -
  let ?a = "\<lparr>name = ascii ''TEMPERATURE'', unit = ascii ''C'', is_cumulative = False,
             aggregation = None\<rparr>"
  let ?b = "\<lparr>name = ascii ''TEMPERATURE'', unit = ascii ''C'', is_cumulative = False,
             aggregation = Some Aggregation_MIN\<rparr>"
  obtain r g' where init: "MetricsRegistry_init [] [?a, ?b] None = (Inr r, g')"
    and rp: "reg_prefix r = []" and g': "g' = [([], [])]"
    by (simp add: MetricsRegistry_init_def get_prefixes_def add_prefix_def Let_def)
  have in1: "?a \<in> set [?a, ?b]" and in2: "?b \<in> set [?a, ?b]" by simp_all
  have ne: "aggregation ?b \<noteq> aggregation ?a" by simp
  note t = aggregations_coexist [OF init in1 in2 _ _ _ ne]
  have m: "reg_metrics r = [(full_name ?a, ?a), (full_name ?b, ?b)]"
    using t [of ?a Aggregation_MIN] by simp
  have fa: "full_name ?a = ascii ''TEMPERATURE''"
    using t [of ?a Aggregation_MIN] by simp
  have fb: "full_name ?b = ascii ''TEMPERATURE_MIN''"
    using t [of ?b Aggregation_MIN] by simp
  have "r = \<lparr>reg_metrics = [(full_name ?a, ?a), (full_name ?b, ?b)], reg_prefix = []\<rparr>"
    using m rp by simp
  with init g' have "MetricsRegistry_init [] [?a, ?b] None
      = (Inr \<lparr>reg_metrics = [(full_name ?a, ?a), (full_name ?b, ?b)], reg_prefix = []\<rparr>,
         [([], [])])"
    by simp
  with fa fb show ?thesis by (simp only:)
qed

section \<open>The name a metric is stored with\<close>

declare replace_runs.simps [simp del]

lemma replace_runs_space:
  "isspace U c \<Longrightarrow> replace_runs U (c # s) = ascii ''_'' @ replace_runs U (dropWhile (isspace U) s)"
  by (simp add: replace_runs.simps)

lemma replace_runs_no_space:
  "\<not> isspace U c \<Longrightarrow> replace_runs U (c # s) = c # replace_runs U s"
  by (simp add: replace_runs.simps)

lemma replace_runs_word:
  "\<forall>x\<in>set w. \<not> isspace U x \<Longrightarrow> replace_runs U (w @ t) = w @ replace_runs U t"
  by (induction w) (simp_all add: replace_runs_no_space)

lemma str_rstrip_Cons: "\<not> isspace U x \<Longrightarrow> str_rstrip U (x # b) = x # str_rstrip U b"
  by (simp add: str_rstrip_def dropWhile_append3)

lemma str_rstrip_word:
  "\<forall>x\<in>set w. \<not> isspace U x \<Longrightarrow> str_rstrip U (w @ t) = w @ str_rstrip U t"
  by (induction w) (simp_all add: str_rstrip_Cons)

lemma str_rstrip_spaces: "\<forall>x\<in>set t. isspace U x \<Longrightarrow> str_rstrip U t = []"
  by (simp add: str_rstrip_def)

lemma str_rstrip_leading:
  assumes "\<not> isspace U x"
  shows "str_rstrip U (sp @ x # b) = sp @ x # str_rstrip U b"
proof -
  have "dropWhile (isspace U) (rev b @ x # rev sp) = dropWhile (isspace U) (rev b) @ x # rev sp"
    using assms by (rule dropWhile_append3)
  then show ?thesis by (simp add: str_rstrip_def)
qed


lemma dropWhile_takeWhile_split:
  "s = takeWhile (isspace U) s @ dropWhile (isspace U) s"
  by simp

lemma str_join_split:
  "str_join (ascii ''_'') (str_split U s) = replace_runs U (str_strip U s)"
proof (induction U s rule: str_split.induct)
  case (1 U s)
  show ?case
  proof (cases "dropWhile (isspace U) s")
    case Nil
    have "str_strip U s = []"
      by (simp add: str_strip_def str_lstrip_def Nil str_rstrip_def)
    then show ?thesis
      by (simp add: str_split_Nil [OF Nil] replace_runs.simps)
  next
    case (Cons c r)
    define w where "w = c # takeWhile (\<lambda>x. \<not> isspace U x) r"
    define t where "t = dropWhile (\<lambda>x. \<not> isspace U x) r"
    have c: "\<not> isspace U c" using Cons by (rule dropWhile_isspace_hd)
    have w: "\<forall>x\<in>set w. \<not> isspace U x"
      unfolding w_def using c by (metis set_ConsD takeWhile_not_space)
    have cr: "c # r = w @ t"
      unfolding w_def t_def by simp
    have split: "str_split U s = w # str_split U t"
      unfolding w_def t_def by (rule str_split_Cons [OF Cons])
    have ih: "str_join (ascii ''_'') (str_split U t) = replace_runs U (str_strip U t)"
      unfolding t_def by (rule 1 [OF Cons])
    have strip: "str_strip U s = w @ str_rstrip U t"
      unfolding str_strip_def str_lstrip_def Cons cr by (rule str_rstrip_word [OF w])
    show ?thesis
    proof (cases "dropWhile (isspace U) t")
      case Nil
      then have "\<forall>x\<in>set t. isspace U x"
        by (simp add: dropWhile_eq_Nil_conv)
      then have "str_rstrip U t = []" by (rule str_rstrip_spaces)
      then have "replace_runs U (str_strip U s) = w"
        unfolding strip using replace_runs_word [OF w, of "[]"]
        by (simp add: replace_runs.simps)
      moreover have "str_join (ascii ''_'') (str_split U s) = w"
        unfolding split by (simp add: str_split_Nil [OF Nil])
      ultimately show ?thesis by simp
    next
      case (Cons c' r')
      define sp where "sp = takeWhile (isspace U) t"
      have t: "t = sp @ c' # r'"
        unfolding sp_def using dropWhile_takeWhile_split [of t U] Cons by simp
      have sp: "\<forall>x\<in>set sp. isspace U x"
        unfolding sp_def by (auto dest: set_takeWhileD)
      have c': "\<not> isspace U c'" using Cons by (rule dropWhile_isspace_hd)
      have "t = [] \<or> isspace U (hd t)"
        unfolding t_def using hd_dropWhile [of "\<lambda>x. \<not> isspace U x" r] by blast
      with t c' have "sp \<noteq> []" by (cases sp) auto
      then obtain s0 sp' where sp0: "sp = s0 # sp'" by (cases sp) auto
      have s0: "isspace U s0" and sp': "\<forall>x\<in>set sp'. isspace U x"
        using sp sp0 by simp_all
      have rt: "str_rstrip U t = s0 # sp' @ c' # str_rstrip U r'"
        unfolding t using str_rstrip_leading [OF c', of sp r'] sp0 by simp
      have st: "str_strip U t = c' # str_rstrip U r'"
        unfolding str_strip_def str_lstrip_def Cons by (rule str_rstrip_Cons [OF c'])
      have dw: "dropWhile (isspace U) (sp' @ c' # str_rstrip U r') = c' # str_rstrip U r'"
        using sp' c' by (simp add: dropWhile_append2)
      have "replace_runs U (str_strip U s)
          = w @ replace_runs U (s0 # sp' @ c' # str_rstrip U r')"
        unfolding strip rt by (rule replace_runs_word [OF w])
      also have "replace_runs U (s0 # sp' @ c' # str_rstrip U r')
          = ascii ''_'' @ replace_runs U (c' # str_rstrip U r')"
        using replace_runs_space [OF s0, of "sp' @ c' # str_rstrip U r'"] dw by simp
      finally have rhs: "replace_runs U (str_strip U s)
          = w @ ascii ''_'' @ replace_runs U (str_strip U t)"
        unfolding st .
      obtain p ps where ps: "str_split U t = p # ps"
        using str_split_Cons [OF Cons] by blast
      have "str_join (ascii ''_'') (str_split U s)
          = w @ ascii ''_'' @ str_join (ascii ''_'') (str_split U t)"
        unfolding split ps by simp
      with ih rhs show ?thesis by simp
    qed
  qed
qed

lemma upper_eq: "upper U n = replace_runs U (str_strip U (str_upper U n))"
  unfolding upper_def by (rule str_join_split)


lemma str_split_simps:
  "str_split U [] = []"
  "isspace U c \<Longrightarrow> str_split U (c # s) = str_split U s"
  "\<not> isspace U c \<Longrightarrow> str_split U (c # s) =
     (c # takeWhile (\<lambda>x. \<not> isspace U x) s) # str_split U (dropWhile (\<lambda>x. \<not> isspace U x) s)"
proof -
  show "str_split U [] = []" by (simp add: str_split_Nil)
  show "str_split U (c # s) = str_split U s" if "isspace U c"
    using that by (subst (1 2) str_split.simps) simp
  show "str_split U (c # s) =
     (c # takeWhile (\<lambda>x. \<not> isspace U x) s) # str_split U (dropWhile (\<lambda>x. \<not> isspace U x) s)"
    if "\<not> isspace U c"
    using that by (intro str_split_Cons) simp
qed

lemma upper_wind_speed:
  assumes "python_tables U"
  shows "upper U (ascii ''wind speed at 2m'') = ascii ''WIND_SPEED_AT_2M''"
proof -
  have u: "str_upper U (ascii ''wind speed at 2m'') = ascii ''WIND SPEED AT 2M''"
    by (simp add: toupper_ascii [OF assms])
  have "str_split U (ascii ''WIND SPEED AT 2M'')
      = [ascii ''WIND'', ascii ''SPEED'', ascii ''AT'', ascii ''2M'']"
    by (simp add: str_split_simps isspace_ascii [OF assms])
  then show ?thesis unfolding upper_def u by simp
qed

lemma str_strip_id:
  "str_strip U s = s \<longleftrightarrow> takeWhile (isspace U) s = [] \<and> takeWhile (isspace U) (rev s) = []"
proof
  assume id: "str_strip U s = s"
  have "length (str_strip U s) \<le> length (str_lstrip U s)"
    unfolding str_strip_def str_rstrip_def
    using length_dropWhile_le [of "isspace U" "rev (str_lstrip U s)"] by simp
  with id have "length s \<le> length (dropWhile (isspace U) s)"
    by (simp add: str_lstrip_def)
  moreover have "length (takeWhile (isspace U) s @ dropWhile (isspace U) s) = length s"
    by (simp only: takeWhile_dropWhile_id)
  then have "length (takeWhile (isspace U) s) + length (dropWhile (isspace U) s) = length s"
    by (simp only: length_append)
  ultimately have "length (takeWhile (isspace U) s) = 0" by arith
  then have l: "takeWhile (isspace U) s = []" by simp
  then have "dropWhile (isspace U) s = s"
    using takeWhile_dropWhile_id [of "isspace U" s] by simp
  with id have "rev (dropWhile (isspace U) (rev s)) = s"
    by (simp add: str_strip_def str_lstrip_def str_rstrip_def)
  then have "dropWhile (isspace U) (rev s) = rev s"
    by (metis rev_rev_ident)
  then have "takeWhile (isspace U) (rev s) = []"
    using takeWhile_dropWhile_id [of "isspace U" "rev s"] by simp
  with l show "takeWhile (isspace U) s = [] \<and> takeWhile (isspace U) (rev s) = []" by simp
next
  assume a: "takeWhile (isspace U) s = [] \<and> takeWhile (isspace U) (rev s) = []"
  then have "dropWhile (isspace U) s = s" and "dropWhile (isspace U) (rev s) = rev s"
    using takeWhile_dropWhile_id [of "isspace U" s]
      takeWhile_dropWhile_id [of "isspace U" "rev s"] by simp_all
  then show "str_strip U s = s"
    by (simp add: str_strip_def str_lstrip_def str_rstrip_def)
qed

lemma replace_internal_runs_eq:
  "replace_runs U (str_strip U s) = replace_internal_runs U s \<longleftrightarrow> str_strip U s = s"
proof
  assume "replace_runs U (str_strip U s) = replace_internal_runs U s"
  then have "length (replace_runs U (str_strip U s)) = length (replace_internal_runs U s)"
    by (rule arg_cong)
  then have "length (replace_runs U (str_strip U s)) =
      length (takeWhile (isspace U) s) + length (replace_runs U (str_strip U s))
        + length (takeWhile (isspace U) (rev (str_lstrip U s)))"
    by (simp only: replace_internal_runs_def length_append length_rev add.assoc)
  then have "length (takeWhile (isspace U) s) = 0
      \<and> length (takeWhile (isspace U) (rev (str_lstrip U s))) = 0"
    by arith
  then have l: "takeWhile (isspace U) s = []"
    and r: "takeWhile (isspace U) (rev (str_lstrip U s)) = []" by simp_all
  from l have "str_lstrip U s = s"
    unfolding str_lstrip_def using takeWhile_dropWhile_id [of "isspace U" s] by simp
  with l r show "str_strip U s = s" by (simp add: str_strip_id)
next
  assume id: "str_strip U s = s"
  then have l: "takeWhile (isspace U) s = []" and r: "takeWhile (isspace U) (rev s) = []"
    by (simp_all add: str_strip_id)
  from l have "str_lstrip U s = s"
    unfolding str_lstrip_def using takeWhile_dropWhile_id [of "isspace U" s] by simp
  with l r show "replace_runs U (str_strip U s) = replace_internal_runs U s"
    by (simp add: replace_internal_runs_def)
qed

text \<open>
  Claim C7, as the code has it. The constructor stores the upper case of the name
  without the whitespace it starts and ends with, and with each run of whitespace that
  is left replaced by one underscore; the unit, the flag and the aggregation are stored
  as they are given. The stored name is the upper case with its internal runs of
  whitespace replaced, as the claim has it, exactly when the upper case of the name
  neither starts nor ends with whitespace. With the tables of Python the name
  \<open>"wind speed at 2m"\<close> is stored as \<open>"WIND_SPEED_AT_2M"\<close>.
\<close>

theorem name_normalised:
  "name (Metrics_init U n u c a) = replace_runs U (str_strip U (str_upper U n))
   \<and> unit (Metrics_init U n u c a) = u
   \<and> is_cumulative (Metrics_init U n u c a) = c
   \<and> aggregation (Metrics_init U n u c a) = a
   \<and> (name (Metrics_init U n u c a) = replace_internal_runs U (str_upper U n)
        \<longleftrightarrow> str_strip U (str_upper U n) = str_upper U n)
   \<and> (python_tables U \<longrightarrow>
        name (Metrics_init U (ascii ''wind speed at 2m'') u c a) = ascii ''WIND_SPEED_AT_2M'')"
proof -
  have n: "name (Metrics_init U n u c a) = replace_runs U (str_strip U (str_upper U n))"
    by (simp add: Metrics_init_def upper_eq)
  have i: "name (Metrics_init U n u c a) = replace_internal_runs U (str_upper U n)
        \<longleftrightarrow> str_strip U (str_upper U n) = str_upper U n"
    unfolding n by (rule replace_internal_runs_eq)
  have w: "python_tables U \<longrightarrow>
        name (Metrics_init U (ascii ''wind speed at 2m'') u c a) = ascii ''WIND_SPEED_AT_2M''"
    using upper_wind_speed [of U] by (simp add: Metrics_init_def)
  have o: "unit (Metrics_init U n u c a) = u" "is_cumulative (Metrics_init U n u c a) = c"
    "aggregation (Metrics_init U n u c a) = a"
    by (simp_all add: Metrics_init_def)
  from n o i w show ?thesis by (intro conjI)
qed

theorem name_normalised_witness:
  "name (Metrics_init ascii_tables (ascii ''wind speed at 2m'') (ascii ''km/h'') False None)
     = ascii ''WIND_SPEED_AT_2M''
   \<and> unit (Metrics_init ascii_tables (ascii ''wind speed at 2m'') (ascii ''km/h'') False None)
     = ascii ''km/h''"
  using name_normalised [of ascii_tables "ascii ''wind speed at 2m''" "ascii ''km/h''" False None]
    ascii_tables_ok
  by blast

text \<open>
  The claim as it is worded fails on a name that starts with whitespace: the name
  \<open>" rain"\<close> is stored as \<open>"RAIN"\<close>, and its upper case with the internal runs of
  whitespace replaced is \<open>" RAIN"\<close>, since the blank it starts with is no internal run.
\<close>

theorem name_normalised_counterexample:
  "name (Metrics_init ascii_tables (ascii '' rain'') (ascii ''mm'') True None) = ascii ''RAIN''
   \<and> replace_internal_runs ascii_tables (str_upper ascii_tables (ascii '' rain''))
       = ascii '' RAIN''"
proof -
  have i: "isspace ascii_tables c = (c \<in> {9, 10, 11, 12, 13, 28, 29, 30, 31, 32})" for c
    by (simp add: ascii_tables_def)
  have u: "str_upper ascii_tables (ascii '' rain'') = ascii '' RAIN''"
    by (simp add: toupper_ascii [OF ascii_tables_ok])
  have "upper ascii_tables (ascii '' rain'') = ascii ''RAIN''"
    unfolding upper_def u by (simp add: str_split_simps i)
  then have 1: "name (Metrics_init ascii_tables (ascii '' rain'') (ascii ''mm'') True None)
      = ascii ''RAIN''"
    by (simp only: Metrics_init_def Metrics.simps)
  have 2: "replace_internal_runs ascii_tables (str_upper ascii_tables (ascii '' rain''))
       = ascii '' RAIN''"
    unfolding u
    by (simp add: replace_internal_runs_def str_strip_def str_lstrip_def str_rstrip_def i
        replace_runs_no_space replace_runs.simps(1))
  from 1 2 show ?thesis by (intro conjI)
qed

section \<open>The plain representation\<close>

text \<open>
  Claim C8, as the code has it. The representation of a metric has the key
  \<open>aggregation\<close> exactly when the aggregation is set. For a metric built by the
  constructor without aggregation, with the tables of Python, the call
  \<open>Metrics(**m.dict(), aggregation=a)\<close> gives a metric with the same name, unit and
  flag, the aggregation \<open>a\<close> and another full name. For a metric whose aggregation is
  set the same call raises \<open>TypeError\<close>, since the key \<open>aggregation\<close> is given twice.
\<close>

theorem representation_round_trip:
  "(rep_aggregation (Metrics_dict m) = None \<longleftrightarrow> aggregation m = None)
   \<and> rep_name (Metrics_dict m) = name m
   \<and> rep_unit (Metrics_dict m) = unit m
   \<and> rep_is_cumulative (Metrics_dict m) = is_cumulative m
   \<and> (aggregation m = Some b \<longrightarrow>
        rep_aggregation (Metrics_dict m) = Some (Some b)
        \<and> Metrics_with_aggregation U (Metrics_dict m) a = Inl TypeError_raised)
   \<and> (aggregation m = None \<longrightarrow>
        Metrics_with_aggregation U (Metrics_dict m) a =
          Inr (Metrics_init U (name m) (unit m) (is_cumulative m) (Some a)))
   \<and> (python_tables U \<and> m = Metrics_init U n u c None \<longrightarrow>
        (\<exists>m'. Metrics_with_aggregation U (Metrics_dict m) a = Inr m'
           \<and> name m' = name m \<and> unit m' = unit m \<and> is_cumulative m' = is_cumulative m
           \<and> aggregation m' = Some a \<and> full_name m' \<noteq> full_name m))"
proof -
  have 1: "rep_aggregation (Metrics_dict m) = None \<longleftrightarrow> aggregation m = None"
    by (simp add: Metrics_dict_def BaseModel_dict_def Let_def)
  have 2: "rep_name (Metrics_dict m) = name m" "rep_unit (Metrics_dict m) = unit m"
    "rep_is_cumulative (Metrics_dict m) = is_cumulative m"
    by (simp_all add: Metrics_dict_def BaseModel_dict_def Let_def)
  have 3: "aggregation m = Some b \<longrightarrow>
        rep_aggregation (Metrics_dict m) = Some (Some b)
        \<and> Metrics_with_aggregation U (Metrics_dict m) a = Inl TypeError_raised"
    by (simp add: Metrics_with_aggregation_def Metrics_dict_def BaseModel_dict_def Let_def)
  have 4: "aggregation m = None \<longrightarrow>
        Metrics_with_aggregation U (Metrics_dict m) a =
          Inr (Metrics_init U (name m) (unit m) (is_cumulative m) (Some a))"
    by (simp add: Metrics_with_aggregation_def Metrics_dict_def BaseModel_dict_def Let_def)
  have 5: "python_tables U \<and> m = Metrics_init U n u c None \<longrightarrow>
        (\<exists>m'. Metrics_with_aggregation U (Metrics_dict m) a = Inr m'
           \<and> name m' = name m \<and> unit m' = unit m \<and> is_cumulative m' = is_cumulative m
           \<and> aggregation m' = Some a \<and> full_name m' \<noteq> full_name m)"
  proof
    assume h: "python_tables U \<and> m = Metrics_init U n u c None"
    then have U: "python_tables U" and m: "m = Metrics_init U n u c None" by simp_all
    have agg: "aggregation m = None" by (simp add: m Metrics_init_def)
    define m' where "m' = Metrics_init U (name m) (unit m) (is_cumulative m) (Some a)"
    have r: "Metrics_with_aggregation U (Metrics_dict m) a = Inr m'"
      unfolding m'_def using 4 agg by blast
    have nm: "name m' = name m"
      by (simp add: m'_def m Metrics_init_def upper_idem [OF U])
    have o: "unit m' = unit m" "is_cumulative m' = is_cumulative m" "aggregation m' = Some a"
      by (simp_all add: m'_def Metrics_init_def)
    have "length (full_name m') \<noteq> length (full_name m)"
      using nm o(3) agg by (simp add: full_name_def)
    then have "full_name m' \<noteq> full_name m" by auto
    with r nm o show "\<exists>m'. Metrics_with_aggregation U (Metrics_dict m) a = Inr m'
           \<and> name m' = name m \<and> unit m' = unit m \<and> is_cumulative m' = is_cumulative m
           \<and> aggregation m' = Some a \<and> full_name m' \<noteq> full_name m"
      by blast
  qed
  from 1 2 3 4 5 show ?thesis by (intro conjI)
qed

theorem representation_round_trip_witness:
  "\<exists>m'. Metrics_with_aggregation ascii_tables
           (Metrics_dict (Metrics_init ascii_tables (ascii ''temperature'') (ascii ''C'') False None))
           Aggregation_MIN = Inr m'
      \<and> name m' = name (Metrics_init ascii_tables (ascii ''temperature'') (ascii ''C'') False None)
      \<and> aggregation m' = Some Aggregation_MIN"
  using representation_round_trip [of
      "Metrics_init ascii_tables (ascii ''temperature'') (ascii ''C'') False None" _ ascii_tables
      Aggregation_MIN "ascii ''temperature''" "ascii ''C''" False]
    ascii_tables_ok
  by blast

text \<open>
  The claim as it is worded fails on a metric whose aggregation is set, such as the
  module's \<open>TEMPERATURE_MIN\<close>: its representation holds the key \<open>aggregation\<close>, and
  \<open>Metrics(**TEMPERATURE_MIN.dict(), aggregation=Aggregation.MAX)\<close> raises \<open>TypeError\<close>
  instead of building a metric.
\<close>

theorem representation_round_trip_counterexample:
  "Metrics_with_aggregation ascii_tables
     (Metrics_dict \<lparr>name = ascii ''TEMPERATURE'', unit = ascii ''C'', is_cumulative = False,
                    aggregation = Some Aggregation_MIN\<rparr>)
     Aggregation_MAX
   = Inl TypeError_raised"
  by (simp add: Metrics_with_aggregation_def Metrics_dict_def BaseModel_dict_def Let_def)

section \<open>Filtering a registry\<close>

lemma str_upper_Aggregation_value:
  "python_tables U \<Longrightarrow> str_upper U (Aggregation_value a) = Aggregation_value a"
  by (cases a) (simp_all add: toupper_ascii)

lemma str_upper_full_name:
  assumes "python_tables U"
  shows "str_upper U (full_name (Metrics_init U n u c a)) = full_name (Metrics_init U n u c a)"
proof (cases a)
  case None
  then show ?thesis
    by (simp add: full_name_def Metrics_init_def str_upper_upper [OF assms])
next
  case (Some x)
  have "str_upper U (ascii ''_'') = ascii ''_''"
    by (simp add: toupper_ascii [OF assms])
  with Some show ?thesis
    by (simp only: full_name_def Metrics_init_def Metrics.simps option.case str_upper_simps(3)
        str_upper_upper [OF assms] str_upper_Aggregation_value [OF assms])
qed

lemma keys_filter: "fst ` set (filter (\<lambda>(k, m). P k) d) = {k \<in> fst ` set d. P k}"
  by (induction d) auto

lemma generate_registry_by_filtering_result:
  assumes "MetricsRegistry_init g0 ms p0 = (Inr self, g1)"
    and "prefix \<notin> get_prefixes g"
  shows "generate_registry_by_filtering U g self names prefix =
           (Inr \<lparr>reg_metrics =
                   filter (\<lambda>(k, m). k \<in> str_upper U ` set names) (reg_metrics self),
                 reg_prefix = prefix\<rparr>,
            add_prefix prefix g)"
proof -
  define kept where
    "kept = filter (\<lambda>(k, m). k \<in> str_upper U ` set names) (reg_metrics self)"
  have r: "reg_metrics self = metrics_by_full_name ms"
    using MetricsRegistry_init_result(1) [OF assms(1)] .
  have "distinct (map fst (reg_metrics self))"
    unfolding r by (rule metrics_by_full_name_distinct)
  then have d: "distinct (map fst kept)"
    unfolding kept_def by (rule distinct_map_filter)
  have e: "full_name m = k" if "(k, m) \<in> set kept" for k m
    using that metrics_by_full_name_entries [of k m ms] unfolding kept_def r by simp
  have "metrics_by_full_name (map snd kept) = kept"
    using d e by (rule metrics_by_full_name_rebuild)
  moreover have "generate_registry_by_filtering U g self names prefix =
      MetricsRegistry_init g (map snd kept) (Some prefix)"
    by (simp add: generate_registry_by_filtering_def kept_def Let_def)
  ultimately show ?thesis
    using MetricsRegistry_init_succeeds [of "Some prefix" g "map snd kept"] assms(2)
    unfolding kept_def by simp
qed




end
